theory Spec2Isabelle
  imports Main "HOL-Library.Word"
begin

section \<open>Values of the program\<close>

text \<open>
  JavaScript strings are modelled as \<^typ>\<open>string\<close>, a \<^typ>\<open>char\<close> standing for a code
  unit below 256; a value that may be \<open>null\<close> or \<open>undefined\<close> is a
  \<^typ>\<open>string option\<close>.  Every character class used by the program is a set of ASCII
  characters (white space apart), and the \<open>i\<close> flag of a regular expression without the
  \<open>u\<close> flag never identifies a character outside ASCII with one inside, so a code unit
  outside ASCII behaves like any other character outside the classes.
\<close>

type_synonym byte = "8 word"

text \<open>The truth value JavaScript gives a string that may be absent.\<close>

definition truthy :: "string option \<Rightarrow> bool" where
  "truthy v = (case v of None \<Rightarrow> False | Some s \<Rightarrow> s \<noteq> [])"

subsection \<open>Character classes\<close>

definition is_digit :: "char \<Rightarrow> bool" where
  "is_digit c = (c \<in> set ''0123456789'')"

definition is_alpha :: "char \<Rightarrow> bool" where
  "is_alpha c =
     (c \<in> set ''ABCDEFGHIJKLMNOPQRSTUVWXYZ'' \<or> c \<in> set ''abcdefghijklmnopqrstuvwxyz'')"

text \<open>\<open>\w\<close>, the class that decides the word boundary \<open>\b\<close>.\<close>

definition is_word :: "char \<Rightarrow> bool" where
  "is_word c = (is_alpha c \<or> is_digit c \<or> c = CHR ''_'')"

text \<open>\<open>[A-Za-z0-9._%+-]\<close>, \<open>[A-Za-z0-9.-]\<close> and \<open>[A-Z|a-z]\<close> (the bar is a member).\<close>

definition is_local :: "char \<Rightarrow> bool" where
  "is_local c = (is_alpha c \<or> is_digit c \<or> c \<in> set ''._%+-'')"

definition is_domain :: "char \<Rightarrow> bool" where
  "is_domain c = (is_alpha c \<or> is_digit c \<or> c \<in> set ''.-'')"

definition is_tld :: "char \<Rightarrow> bool" where
  "is_tld c = (is_alpha c \<or> c = CHR ''|'')"

text \<open>
  \<open>\s\<close> among the code units below 256: tab, line feed, vertical tab, form feed,
  carriage return, space and the no-break space.
\<close>

definition is_space :: "char \<Rightarrow> bool" where
  "is_space c = (of_char c \<in> set [9, 10, 11, 12, 13, 32, 160 :: nat])"

definition non_space :: "char \<Rightarrow> bool" where
  "non_space c = (\<not> is_space c)"

text \<open>The canonical form of a character under the \<open>i\<close> flag: ASCII upper case.\<close>

definition to_upper :: "char \<Rightarrow> char" where
  "to_upper c =
     (case map_of (zip ''abcdefghijklmnopqrstuvwxyz'' ''ABCDEFGHIJKLMNOPQRSTUVWXYZ'') c of
        None \<Rightarrow> c
      | Some u \<Rightarrow> u)"

subsection \<open>Positions in a string\<close>

definition char_at :: "string \<Rightarrow> nat \<Rightarrow> char option" where
  "char_at s i = (if i < length s then Some (s ! i) else None)"

definition slice :: "string \<Rightarrow> nat \<Rightarrow> nat \<Rightarrow> string" where
  "slice s i j = take (j - i) (drop i s)"

text \<open>The number of characters a greedy quantifier over a class first consumes at \<open>i\<close>.\<close>

definition run :: "(char \<Rightarrow> bool) \<Rightarrow> string \<Rightarrow> nat \<Rightarrow> nat" where
  "run p s i = length (takeWhile p (drop i s))"

definition word_at :: "string \<Rightarrow> nat \<Rightarrow> bool" where
  "word_at s i = (case char_at s i of None \<Rightarrow> False | Some c \<Rightarrow> is_word c)"

text \<open>\<open>\b\<close> at position \<open>i\<close>: exactly one of the characters before and at \<open>i\<close> is a word
  character (the ends of the string count as non-word).\<close>

definition word_boundary :: "string \<Rightarrow> nat \<Rightarrow> bool" where
  "word_boundary s i = ((0 < i \<and> word_at s (i - 1)) \<noteq> word_at s i)"

text \<open>\<open>content.includes(sub)\<close>.\<close>

fun includes_sub :: "string \<Rightarrow> string \<Rightarrow> bool" where
  "includes_sub [] sub = (sub = [])"
| "includes_sub (c # cs) sub = (take (length sub) (c # cs) = sub \<or> includes_sub cs sub)"

section \<open>The extraction regex of the bridge\<close>

text \<open>
  \<^verbatim>\<open>const emailRegex = /\b[A-Za-z0-9._%+-]+@[A-Za-z0-9.-]+\.[A-Z|a-z]{2,}\b/i\<close>

  The matcher is the backtracking one of the language: each quantifier is greedy, takes
  the longest run first and gives back one character at a time when the rest of the
  pattern fails.  Each function below is one quantifier; its last argument is the number
  of characters it currently holds, and its result is the end of the whole match.
\<close>

fun tld_bt :: "string \<Rightarrow> nat \<Rightarrow> nat \<Rightarrow> nat option" where
  "tld_bt s b 0 = None"
| "tld_bt s b (Suc n) =
     (if Suc n < 2 then None
      else if word_boundary s (b + Suc n) then Some (b + Suc n)
      else tld_bt s b n)"

fun domain_bt :: "string \<Rightarrow> nat \<Rightarrow> nat \<Rightarrow> nat option" where
  "domain_bt s a 0 = None"
| "domain_bt s a (Suc k) =
     (case (if char_at s (a + Suc k) = Some CHR ''.''
            then tld_bt s (a + Suc k + 1) (run is_tld s (a + Suc k + 1))
            else None) of
        Some j \<Rightarrow> Some j
      | None \<Rightarrow> domain_bt s a k)"

fun local_bt :: "string \<Rightarrow> nat \<Rightarrow> nat \<Rightarrow> nat option" where
  "local_bt s i 0 = None"
| "local_bt s i (Suc n) =
     (case (if char_at s (i + Suc n) = Some CHR ''@''
            then domain_bt s (i + Suc n + 1) (run is_domain s (i + Suc n + 1))
            else None) of
        Some j \<Rightarrow> Some j
      | None \<Rightarrow> local_bt s i n)"

text \<open>The pattern anchored at \<open>i\<close>: the end of the match, if there is one.\<close>

definition emailRegex_at :: "string \<Rightarrow> nat \<Rightarrow> nat option" where
  "emailRegex_at s i =
     (if word_boundary s i then local_bt s i (run is_local s i) else None)"

text \<open>The start positions are tried from left to right; the first that matches wins.\<close>

fun regex_search :: "(nat \<Rightarrow> 'a option) \<Rightarrow> nat list \<Rightarrow> (nat \<times> 'a) option" where
  "regex_search m [] = None"
| "regex_search m (i # is) =
     (case m i of Some r \<Rightarrow> Some (i, r) | None \<Rightarrow> regex_search m is)"

text \<open>\<open>aiResponse.match(emailRegex)\<close>, then element \<open>0\<close> of the result: the matched text.\<close>

definition emailMatch :: "string \<Rightarrow> string option" where
  "emailMatch s =
     (case regex_search (emailRegex_at s) [0..<Suc (length s)] of
        None \<Rightarrow> None
      | Some (i, j) \<Rightarrow> Some (slice s i j))"

text \<open>
  What the pattern says, without the search: the text between \<open>i\<close> and \<open>j\<close> is a
  non-empty run of local-part characters, an at sign, a non-empty run of domain
  characters, a dot and at least two top-level characters, with a word boundary at each
  end.  This is the email-shaped substring the claims speak of.
\<close>

definition email_shaped_at :: "string \<Rightarrow> nat \<Rightarrow> nat \<Rightarrow> bool" where
  "email_shaped_at s i j =
     (word_boundary s i \<and> word_boundary s j \<and> j \<le> length s \<and>
      list_ex (\<lambda>a. list_ex (\<lambda>b.
          i < a \<and> list_all is_local (slice s i a) \<and> char_at s a = Some CHR ''@'' \<and>
          a + 1 < b \<and> list_all is_domain (slice s (a + 1) b) \<and>
          char_at s b = Some CHR ''.'' \<and>
          b + 3 \<le> j \<and> list_all is_tld (slice s (b + 1) j)) [a..<j]) [i..<j])"

text \<open>All the positions at which the text has that shape.\<close>

definition email_occurrences :: "string \<Rightarrow> (nat \<times> nat) list" where
  "email_occurrences s =
     filter (\<lambda>(i, j). email_shaped_at s i j)
       (List.product [0..<Suc (length s)] [0..<Suc (length s)])"

text \<open>
  The email-shaped substrings of a text, by their start and end: the occurrences of the
  shape that are not part of a longer one.  (In \<open>to jane.doe@example.com\<close> the shape
  also occurs at \<open>doe@example.com\<close>; the email-shaped substring is the whole address.)
\<close>

definition email_substrings :: "string \<Rightarrow> (nat \<times> nat) list" where
  "email_substrings s =
     filter (\<lambda>(i, j). list_all (\<lambda>(i', j'). i' \<le> i \<and> j \<le> j' \<longrightarrow> i' = i \<and> j' = j)
                        (email_occurrences s))
       (email_occurrences s)"

section \<open>The second regex, in the Lead Store\<close>

text \<open>
  \<^verbatim>\<open>content.match(/email:\s*([^\s]+@[^\s]+)/i)\<close>

  The literal \<open>email:\<close> in any case, optional white space, and the captured group: a run
  of non-space characters, an at sign, a run of non-space characters.
\<close>

definition label_at :: "string \<Rightarrow> nat \<Rightarrow> bool" where
  "label_at s p = (p + 6 \<le> length s \<and> map to_upper (slice s p (p + 6)) = ''EMAIL:'')"

fun token_bt :: "string \<Rightarrow> nat \<Rightarrow> nat \<Rightarrow> nat option" where
  "token_bt s g 0 = None"
| "token_bt s g (Suc n) =
     (if char_at s (g + Suc n) = Some CHR ''@'' \<and> 1 \<le> run non_space s (g + Suc n + 1)
      then Some (g + Suc n + 1 + run non_space s (g + Suc n + 1))
      else token_bt s g n)"

fun space_bt :: "string \<Rightarrow> nat \<Rightarrow> nat \<Rightarrow> (nat \<times> nat) option" where
  "space_bt s q 0 = map_option (Pair q) (token_bt s q (run non_space s q))"
| "space_bt s q (Suc w) =
     (case token_bt s (q + Suc w) (run non_space s (q + Suc w)) of
        Some e \<Rightarrow> Some (q + Suc w, e)
      | None \<Rightarrow> space_bt s q w)"

definition labelRegex_at :: "string \<Rightarrow> nat \<Rightarrow> (nat \<times> nat) option" where
  "labelRegex_at s p =
     (if label_at s p then space_bt s (p + 6) (run is_space s (p + 6)) else None)"

text \<open>Element \<open>1\<close> of the match: the captured group.\<close>

definition labelMatch :: "string \<Rightarrow> string option" where
  "labelMatch s =
     (case regex_search (labelRegex_at s) [0..<Suc (length s)] of
        None \<Rightarrow> None
      | Some (p, g, e) \<Rightarrow> Some (slice s g e))"

section \<open>Lead Store\<close>

text \<open>
  The tables \<open>leads\<close> and \<open>conversations\<close> with the columns the bridge reads or writes, in
  row order.  The column \<open>last_updated\<close> holds wall-clock time and is left out; the
  statements of the database driver are taken to succeed.  The journal lists the calls
  of the store's mutating operations in the order they were made: it is how the model
  says that an operation was called.
\<close>

record lead =
  lead_id :: nat
  lead_name :: "string option"
  lead_phone_number :: "string option"
  lead_alternate_phone :: "string option"
  lead_email :: "string option"
  lead_status :: "string option"

record conversation =
  conv_lead_id :: nat
  conv_content :: string
  conv_is_ai_response :: nat

datatype store_call =
    EmailUpdate "string option" string
  | StatusUpdate "string option" string
  | ConversationAdd "string option" string bool

record database =
  leads :: "lead list"
  lead_seq :: nat
  conversations :: "conversation list"
  journal :: "store_call list"

definition called :: "store_call \<Rightarrow> database \<Rightarrow> database" where
  "called c d = d\<lparr>journal := journal d @ [c]\<rparr>"

fun is_EmailUpdate :: "store_call \<Rightarrow> bool" where
  "is_EmailUpdate (EmailUpdate p e) = True"
| "is_EmailUpdate _ = False"

text \<open>
  \<^verbatim>\<open>
  function standardizePhoneNumber(number) {
    if (!number) return null
    const digitsOnly = number.replace(/\D/g, "")
    if (digitsOnly.length === 11 && digitsOnly.startsWith("1")) {
      return `+${digitsOnly}`
    } else if (digitsOnly.length === 10) {
      return `+1${digitsOnly}`
    } else {
      return null
    }
  }
  \<close>
  \<open>!number\<close> holds for \<open>null\<close>, \<open>undefined\<close> and the empty string.
\<close>

definition standardizePhoneNumber :: "string option \<Rightarrow> string option" where
  "standardizePhoneNumber number =
     (case number of
        None \<Rightarrow> None
      | Some n \<Rightarrow>
          if n = [] then None
          else
            let digitsOnly = filter is_digit n
            in if length digitsOnly = 11 \<and> take 1 digitsOnly = ''1''
               then Some (''+'' @ digitsOnly)
               else if length digitsOnly = 10
               then Some (''+1'' @ digitsOnly)
               else None)"

text \<open>\<open>WHERE phone_number = ? OR alternate_phone = ?\<close>; a \<open>NULL\<close> column equals nothing.\<close>

definition has_phone :: "string \<Rightarrow> lead \<Rightarrow> bool" where
  "has_phone p l = (lead_phone_number l = Some p \<or> lead_alternate_phone l = Some p)"

definition getLead :: "string option \<Rightarrow> database \<Rightarrow> lead option" where
  "getLead phoneNumber d =
     (case standardizePhoneNumber phoneNumber of
        None \<Rightarrow> None
      | Some p \<Rightarrow> find (has_phone p) (leads d))"

definition updateLeadStatus :: "string option \<Rightarrow> string \<Rightarrow> database \<Rightarrow> database" where
  "updateLeadStatus phoneNumber st d0 =
     (let d = called (StatusUpdate phoneNumber st) d0
      in case standardizePhoneNumber phoneNumber of
           None \<Rightarrow> d
         | Some p \<Rightarrow>
             d\<lparr>leads := map (\<lambda>l. if has_phone p l then l\<lparr>lead_status := Some st\<rparr> else l)
                          (leads d)\<rparr>)"

text \<open>
  The row id of an \<open>INTEGER PRIMARY KEY AUTOINCREMENT\<close> column: one more than the largest
  id the table has ever held.
\<close>

definition fresh_lead_id :: "database \<Rightarrow> nat" where
  "fresh_lead_id d = Suc (fold max (map lead_id (leads d)) (lead_seq d))"

text \<open>
  \<open>updateLeadEmail\<close>: an \<open>UPDATE\<close> of every row with the phone number and, when no row
  changed, an \<open>INSERT\<close> of a new lead with status \<open>new\<close>.  It returns the lead read
  back.
\<close>

definition updateLeadEmail ::
  "string option \<Rightarrow> string \<Rightarrow> database \<Rightarrow> database \<times> lead option" where
  "updateLeadEmail phoneNumber em d0 =
     (let d = called (EmailUpdate phoneNumber em) d0
      in case standardizePhoneNumber phoneNumber of
           None \<Rightarrow> (d, None)
         | Some p \<Rightarrow>
             let changes = length (filter (has_phone p) (leads d));
                 d1 = d\<lparr>leads := map (\<lambda>l. if has_phone p l then l\<lparr>lead_email := Some em\<rparr>
                                            else l) (leads d)\<rparr>;
                 d2 = (if changes = 0
                       then d1\<lparr>leads := leads d1 @
                                  [\<lparr>lead_id = fresh_lead_id d1, lead_name = None,
                                    lead_phone_number = Some p, lead_alternate_phone = None,
                                    lead_email = Some em, lead_status = Some ''new''\<rparr>],
                               lead_seq := fresh_lead_id d1\<rparr>
                       else d1)
             in (d2, getLead (Some p) d2))"

text \<open>
  \<^verbatim>\<open>
  async function addConversation(phoneNumber, content, isAiResponse = false) {
    const standardizedPhoneNumber = standardizePhoneNumber(phoneNumber)
    if (!standardizedPhoneNumber) { ...; return }
    const lead = await getLead(standardizedPhoneNumber)
    if (lead) {
      // Only store meaningful content
      if (content !== "User audio received" || isAiResponse) {
        await db.run("INSERT INTO conversations (lead_id, content, is_ai_response) ...")
        await db.run("UPDATE leads SET last_updated = CURRENT_TIMESTAMP WHERE id = ?", ...)
        // If this is an AI response, check for email
        if (isAiResponse && content.includes("email:")) {
          const emailMatch = content.match(/email:\s*([^\s]+@[^\s]+)/i)
          if (emailMatch && emailMatch[1]) {
            await updateLeadEmail(standardizedPhoneNumber, emailMatch[1])
          }
        }
      }
    }
  }
  \<close>
\<close>

definition addConversation ::
  "string option \<Rightarrow> string \<Rightarrow> bool \<Rightarrow> database \<Rightarrow> database" where
  "addConversation phoneNumber content isAiResponse d0 =
     (let d = called (ConversationAdd phoneNumber content isAiResponse) d0
      in case standardizePhoneNumber phoneNumber of
           None \<Rightarrow> d
         | Some p \<Rightarrow>
             (case getLead (Some p) d of
                None \<Rightarrow> d
              | Some l \<Rightarrow>
                  if content \<noteq> ''User audio received'' \<or> isAiResponse
                  then
                    let d1 = d\<lparr>conversations := conversations d @
                                 [\<lparr>conv_lead_id = lead_id l, conv_content = content,
                                   conv_is_ai_response = (if isAiResponse then 1 else 0)\<rparr>]\<rparr>
                    in if isAiResponse \<and> includes_sub content ''email:''
                       then (case labelMatch content of
                               None \<Rightarrow> d1
                             | Some g \<Rightarrow>
                                 if g \<noteq> [] then fst (updateLeadEmail (Some p) g d1) else d1)
                       else d1
                  else d))"

section \<open>Call Session Bridge\<close>

text \<open>
  The bridge is the pair of message handlers that \<open>admin.js\<close> registers for one
  telephony connection, closed over the variables declared at the top of the route.  The
  record below holds those variables, followed by what the handlers act on: whether the
  AI socket is open, the clock and the pending timers of the event loop, the store, and
  the trace of what was sent or handed to a collaborator.  A handler is modelled as
  running to its end before the next event is taken.
\<close>

datatype task = InitializeSession | ContinueConversation | SilencePrompt

record timer =
  timer_id :: nat
  timer_due :: nat
  timer_task :: task

datatype ai_msg =
    SessionUpdate
  | InputAudioAppend string
  | SpeechStopped
  | InputTextAppend string

datatype tw_msg =
    TwMedia "string option" string
  | TwMark "string option"
  | TwTts "string option" string

datatype effect =
    AiSend ai_msg
  | TwilioSend tw_msg
  | SaveRecording "string option" "byte list" "byte list"
  | Transcribe string

fun is_recording_effect :: "effect \<Rightarrow> bool" where
  "is_recording_effect (SaveRecording sid i out) = True"
| "is_recording_effect (Transcribe path) = True"
| "is_recording_effect _ = False"


record state =
  streamSid :: "string option"
  customerNumber :: "string option"
  latestMediaTimestamp :: nat
  lastAssistantItem :: "string option"
  markQueue :: "string list"
  responseStartTimestampTwilio :: "nat option"
  accumulatedText :: string
  customerNumbers :: "string option \<rightharpoonup> string option"
  silenceTimeout :: "nat option"
  incomingAudioBuffer :: "byte list"
  outgoingAudioBuffer :: "byte list"
  aiOpen :: bool
  clock :: nat
  timers :: "timer list"
  nextTimer :: nat
  store :: database
  trace :: "effect list"

text \<open>
  What the handlers call outside the files at hand: the base64 codec of \<open>Buffer\<close>, the
  outcome of \<open>saveRecording\<close> (the path of the outgoing file, or nothing when it
  rejects), the text the transcription service returns for a file (or nothing when the
  request fails), and the two store operations that \<open>admin.js\<close> imports but the store
  module at hand does not define.  Each of the two returns the store it leaves and
  whether it completed.
\<close>

record env =
  from_base64 :: "string \<Rightarrow> byte list"
  to_base64 :: "byte list \<Rightarrow> string"
  saved_recording :: "string option \<Rightarrow> byte list \<Rightarrow> byte list \<Rightarrow> string option"
  transcription :: "string \<Rightarrow> string option"
  updateCallTranscript :: "string option \<Rightarrow> string \<Rightarrow> string \<Rightarrow> database \<Rightarrow> bool \<times> database"
  processAIResponseAndUpdateLead :: "string option \<Rightarrow> string \<Rightarrow> database \<Rightarrow> bool \<times> database"

definition initial :: "database \<Rightarrow> state" where
  "initial d =
     \<lparr>streamSid = None, customerNumber = None, latestMediaTimestamp = 0,
      lastAssistantItem = None, markQueue = [], responseStartTimestampTwilio = None,
      accumulatedText = [], customerNumbers = Map.empty, silenceTimeout = None,
      incomingAudioBuffer = [], outgoingAudioBuffer = [],
      aiOpen = False, clock = 0, timers = [], nextTimer = 0, store = d, trace = []\<rparr>"

subsection \<open>Sends and timers\<close>

definition emit :: "effect \<Rightarrow> state \<Rightarrow> state" where
  "emit e s = s\<lparr>trace := trace s @ [e]\<rparr>"

text \<open>\<open>setTimeout(task, ms)\<close>: a new pending timer, due \<open>ms\<close> from now; its handle.\<close>

definition setTimeout :: "task \<Rightarrow> nat \<Rightarrow> state \<Rightarrow> nat \<times> state" where
  "setTimeout t ms s =
     (nextTimer s,
      s\<lparr>timers := timers s @
           [\<lparr>timer_id = nextTimer s, timer_due = clock s + ms, timer_task = t\<rparr>],
        nextTimer := Suc (nextTimer s)\<rparr>)"

text \<open>\<open>clearTimeout(h)\<close>: the timer is no longer pending; nothing happens if it has fired.\<close>

definition clearTimeout :: "nat \<Rightarrow> state \<Rightarrow> state" where
  "clearTimeout h s = s\<lparr>timers := filter (\<lambda>t. timer_id t \<noteq> h) (timers s)\<rparr>"

definition initializeSession :: "state \<Rightarrow> state" where
  "initializeSession s = emit (AiSend SessionUpdate) s"

text \<open>
  \<^verbatim>\<open>
  const sendMark = (connection, streamSid) => {
    if (streamSid) {
      connection.send(JSON.stringify(markEvent))
      markQueue.push("responsePart")
    }
  }
  \<close>
\<close>

definition sendMark :: "state \<Rightarrow> state" where
  "sendMark s =
     (if truthy (streamSid s)
      then (emit (TwilioSend (TwMark (streamSid s))) s)
             \<lparr>markQueue := markQueue s @ [''responsePart'']\<rparr>
      else s)"

definition handleEndOfSpeech :: "state \<Rightarrow> state" where
  "handleEndOfSpeech s = (if aiOpen s then emit (AiSend SpeechStopped) s else s)"

definition pause_prompt :: string where
  "pause_prompt = ''There has been a pause in the conversation. Politely ask if there's anything else you can help with or if the customer has any questions.''"

definition continue_prompt :: string where
  "continue_prompt = ''Continue the conversation naturally. If there's been a pause, politely ask if there's anything else you can help with.''"

text \<open>
  \<^verbatim>\<open>
  const promptAIIfSilent = (timeoutMs = 10000) => {
    if (silenceTimeout) clearTimeout(silenceTimeout)
    silenceTimeout = setTimeout(() => {
      if (openAiWs.readyState === WebSocket.OPEN) {
        openAiWs.send(JSON.stringify(promptMessage))
      }
    }, timeoutMs)
  }
  \<close>
  A timer handle is an object, so \<open>silenceTimeout\<close> is truthy once set.
\<close>

definition promptAIIfSilent :: "nat \<Rightarrow> state \<Rightarrow> state" where
  "promptAIIfSilent timeoutMs s =
     (let s1 = (case silenceTimeout s of None \<Rightarrow> s | Some h \<Rightarrow> clearTimeout h s);
          (h, s2) = setTimeout SilencePrompt timeoutMs s1
      in s2\<lparr>silenceTimeout := Some h\<rparr>)"

text \<open>The callbacks handed to \<open>setTimeout\<close>.\<close>

fun run_task :: "task \<Rightarrow> state \<Rightarrow> state" where
  "run_task InitializeSession s = initializeSession s"
| "run_task ContinueConversation s = emit (AiSend (InputTextAppend continue_prompt)) s"
| "run_task SilencePrompt s =
     (if aiOpen s then emit (AiSend (InputTextAppend pause_prompt)) s else s)"

text \<open>The event loop runs a pending timer that is due: it leaves the queue and its
  callback runs.  A handle that is not pending, or not yet due, does nothing.\<close>

definition fire :: "nat \<Rightarrow> state \<Rightarrow> state" where
  "fire h s =
     (case find (\<lambda>t. timer_id t = h) (timers s) of
        None \<Rightarrow> s
      | Some t \<Rightarrow>
          if timer_due t \<le> clock s then run_task (timer_task t) (clearTimeout h s) else s)"

subsection \<open>Messages from the AI connection\<close>

record ai_response =
  response_type :: string
  response_delta :: "string option"
  response_item_id :: "string option"

text \<open>
  The branch for \<open>response.content.done\<close>:
  \<^verbatim>\<open>
  const aiResponse = accumulatedText
  accumulatedText = ""
  if (customerNumber) {
    await addConversation(customerNumber, aiResponse, true)
    const emailRegex = /\b[A-Za-z0-9._%+-]+@[A-Za-z0-9.-]+\.[A-Z|a-z]{2,}\b/i
    const emailMatch = aiResponse.match(emailRegex)
    if (emailMatch) {
      const email = emailMatch[0]
      try { await updateLeadEmail(customerNumber, email) } catch (error) { ... }
    } else { console.log("No email found in the AI response") }
    const updatedLead = await getLead(customerNumber)
  }
  connection.send(JSON.stringify(ttsEvent))
  setTimeout(() => { openAiWs.send(JSON.stringify(continueConversation)) }, 5000)
  \<close>
\<close>

definition content_done :: "state \<Rightarrow> state" where
  "content_done s0 =
     (let aiResponse = accumulatedText s0;
          s1 = s0\<lparr>accumulatedText := []\<rparr>;
          s2 = (if truthy (customerNumber s1)
                then
                  let d1 = addConversation (customerNumber s1) aiResponse True (store s1);
                      d2 = (case emailMatch aiResponse of
                              Some email \<Rightarrow> fst (updateLeadEmail (customerNumber s1) email d1)
                            | None \<Rightarrow> d1)
                  in s1\<lparr>store := d2\<rparr>
                else s1);
          s3 = emit (TwilioSend (TwTts (streamSid s2) aiResponse)) s2
      in snd (setTimeout ContinueConversation 5000 s3))"

text \<open>
  The branch for \<open>response.audio.delta\<close>:
  \<^verbatim>\<open>
  connection.send(JSON.stringify(audioDelta))
  outgoingAudioBuffer = Buffer.concat([outgoingAudioBuffer, Buffer.from(response.delta, "base64")])
  if (!responseStartTimestampTwilio) { responseStartTimestampTwilio = latestMediaTimestamp }
  if (response.item_id) { lastAssistantItem = response.item_id }
  sendMark(connection, streamSid)
  \<close>
\<close>

definition audio_delta :: "env \<Rightarrow> string \<Rightarrow> string option \<Rightarrow> state \<Rightarrow> state" where
  "audio_delta E d item s0 =
     (let s1 = emit (TwilioSend (TwMedia (streamSid s0) (to_base64 E (from_base64 E d)))) s0;
          s2 = s1\<lparr>outgoingAudioBuffer := outgoingAudioBuffer s1 @ from_base64 E d\<rparr>;
          s3 = (if responseStartTimestampTwilio s2 = None \<or>
                   responseStartTimestampTwilio s2 = Some 0
                then s2\<lparr>responseStartTimestampTwilio := Some (latestMediaTimestamp s2)\<rparr>
                else s2);
          s4 = (if truthy item then s3\<lparr>lastAssistantItem := item\<rparr> else s3)
      in sendMark s4)"

text \<open>
  \<open>openAiWs.on("message", ...)\<close>.  A frame that is not JSON raises inside the handler's
  \<open>try\<close> and changes nothing: it is \<open>None\<close> here.
\<close>

definition openAiWs_message :: "env \<Rightarrow> ai_response option \<Rightarrow> state \<Rightarrow> state" where
  "openAiWs_message E frame s =
     (case frame of
        None \<Rightarrow> s
      | Some r \<Rightarrow>
          if response_type r = ''response.text.delta''
          then (case response_delta r of
                  None \<Rightarrow> s
                | Some d \<Rightarrow> if d \<noteq> [] then s\<lparr>accumulatedText := accumulatedText s @ d\<rparr> else s)
          else if response_type r = ''response.content.done'' then content_done s
          else if response_type r = ''response.audio.delta''
          then (case response_delta r of
                  None \<Rightarrow> s
                | Some d \<Rightarrow> if d \<noteq> [] then audio_delta E d (response_item_id r) s else s)
          else s)"

subsection \<open>Messages from the telephony connection\<close>

record start_payload =
  start_streamSid :: "string option"
  start_customerNumber :: "string option"
  start_To :: "string option"
  start_to :: "string option"

record media_payload =
  media_timestamp :: nat
  media_payload :: string
  media_track :: "string option"
  media_chunk :: "string option"

text \<open>
  A parsed message: its \<open>event\<close> field decides the constructor, the first argument of
  \<open>Media\<close> and \<open>Stop\<close> is the top-level \<open>streamSid\<close>, and the payload objects
  \<open>data.start\<close> and \<open>data.media\<close> may be missing.  \<open>start_customerNumber\<close> is
  \<open>data.start.customParameters?.customerNumber\<close>; \<open>start_To\<close> and \<open>start_to\<close> are
  \<open>data.start.To\<close> and \<open>data.start.to\<close>, which only the handler of the third variant
  reads.
\<close>

datatype twilio_message =
    Start "start_payload option"
  | Media "string option" "media_payload option"
  | Mark
  | Stop "string option"
  | Other
  | Unparsable

text \<open>
  \<^verbatim>\<open>
  async function transcribeAndSaveRecording(streamSid, customerNumber, outgoingFilePath) {
    try {
      const outgoingTranscription = await openai.audio.transcriptions.create({...})
      await updateCallTranscript(streamSid, "outgoing", outgoingTranscription.text)
      await processAIResponseAndUpdateLead(streamSid, outgoingTranscription.text)
      await addConversation(customerNumber, `Outgoing: ${outgoingTranscription.text}`, true)
    } catch (error) { ... }
  }
  \<close>
\<close>

definition transcribeAndSaveRecording ::
  "env \<Rightarrow> string option \<Rightarrow> string option \<Rightarrow> string \<Rightarrow> state \<Rightarrow> state" where
  "transcribeAndSaveRecording E sid customer path s0 =
     (let s1 = emit (Transcribe path) s0
      in case transcription E path of
           None \<Rightarrow> s1
         | Some text \<Rightarrow>
             let (ok1, d1) = updateCallTranscript E sid ''outgoing'' text (store s1)
             in if \<not> ok1 then s1\<lparr>store := d1\<rparr>
                else
                  let (ok2, d2) = processAIResponseAndUpdateLead E sid text d1
                  in if \<not> ok2 then s1\<lparr>store := d2\<rparr>
                     else s1\<lparr>store := addConversation customer (''Outgoing: '' @ text) True d2\<rparr>)"

text \<open>
  The case \<open>start\<close>:
  \<^verbatim>\<open>
  streamSid = data.start.streamSid
  customerNumber = data.start.customParameters?.customerNumber
  responseStartTimestampTwilio = null
  latestMediaTimestamp = 0
  incomingAudioBuffer = Buffer.alloc(0)
  outgoingAudioBuffer = Buffer.alloc(0)
  \<close>
\<close>

definition on_start :: "start_payload \<Rightarrow> state \<Rightarrow> state" where
  "on_start p s =
     s\<lparr>streamSid := start_streamSid p, customerNumber := start_customerNumber p,
       responseStartTimestampTwilio := None, latestMediaTimestamp := 0,
       incomingAudioBuffer := [], outgoingAudioBuffer := []\<rparr>"

text \<open>
  The case \<open>media\<close>:
  \<^verbatim>\<open>
  latestMediaTimestamp = data.media.timestamp
  if (openAiWs.readyState === WebSocket.OPEN) {
    openAiWs.send(JSON.stringify(audioAppend))
    incomingAudioBuffer = Buffer.concat([incomingAudioBuffer, Buffer.from(data.media.payload, "base64")])
  }
  await addConversation(customerNumber, "User audio received", false)
  if (!customerNumbers.has(data.streamSid)) {
    customerNumbers.set(data.streamSid, customerNumber)
  }
  if (data.media && data.media.track === "inbound" && data.media.chunk === "end") {
    handleEndOfSpeech()
  }
  promptAIIfSilent()
  \<close>
\<close>

definition on_media :: "env \<Rightarrow> string option \<Rightarrow> media_payload \<Rightarrow> state \<Rightarrow> state" where
  "on_media E sid m s0 =
     (let s1 = s0\<lparr>latestMediaTimestamp := media_timestamp m\<rparr>;
          s2 = (if aiOpen s1
                then (emit (AiSend (InputAudioAppend (media_payload m))) s1)
                       \<lparr>incomingAudioBuffer :=
                          incomingAudioBuffer s1 @ from_base64 E (media_payload m)\<rparr>
                else s1);
          s3 = s2\<lparr>store := addConversation (customerNumber s2) ''User audio received'' False
                              (store s2)\<rparr>;
          s4 = (if customerNumbers s3 sid = None
                then s3\<lparr>customerNumbers := (customerNumbers s3)(sid \<mapsto> customerNumber s3)\<rparr>
                else s3);
          s5 = (if media_track m = Some ''inbound'' \<and> media_chunk m = Some ''end''
                then handleEndOfSpeech s4 else s4)
      in promptAIIfSilent 10000 s5)"

text \<open>
  The case \<open>mark\<close>:
  \<^verbatim>\<open>
  if (markQueue.length > 0) { markQueue.shift() }
  \<close>
\<close>

definition on_mark :: "state \<Rightarrow> state" where
  "on_mark s = (if length (markQueue s) > 0 then s\<lparr>markQueue := tl (markQueue s)\<rparr> else s)"

text \<open>
  The case \<open>stop\<close>:
  \<^verbatim>\<open>
  customerNumbers.delete(data.streamSid)
  if (outgoingAudioBuffer.length > 0) {
    try {
      const { outgoingFilePath } = await saveRecording(
        streamSid,
        Buffer.alloc(0), // Empty buffer for incoming audio
        outgoingAudioBuffer,
      )
      await transcribeAndSaveRecording(streamSid, customerNumber, outgoingFilePath)
      await updateLeadStatus(customerNumber, "call_completed")
    } catch (error) { ... }
    outgoingAudioBuffer = Buffer.alloc(0)
  } else {
    console.log(`No audio data to save for StreamSID: ${streamSid}`)
  }
  \<close>
\<close>

definition on_stop :: "env \<Rightarrow> string option \<Rightarrow> state \<Rightarrow> state" where
  "on_stop E sid s0 =
     (let s1 = s0\<lparr>customerNumbers := (customerNumbers s0)(sid := None)\<rparr>
      in if length (outgoingAudioBuffer s1) > 0
         then
           let s2 = emit (SaveRecording (streamSid s1) [] (outgoingAudioBuffer s1)) s1;
               s3 = (case saved_recording E (streamSid s1) [] (outgoingAudioBuffer s1) of
                       None \<Rightarrow> s2
                     | Some outgoingFilePath \<Rightarrow>
                         let s4 = transcribeAndSaveRecording E (streamSid s2)
                                    (customerNumber s2) outgoingFilePath s2
                         in s4\<lparr>store := updateLeadStatus (customerNumber s4)
                                            ''call_completed'' (store s4)\<rparr>)
           in s3\<lparr>outgoingAudioBuffer := []\<rparr>
         else s1)"

text \<open>
  \<open>connection.on("message", ...)\<close>.  Reading \<open>data.start.streamSid\<close> or
  \<open>data.media.timestamp\<close> of a message without that object raises before anything is
  assigned, inside the handler's \<open>try\<close>: the state stays as it was.
\<close>

fun connection_message :: "env \<Rightarrow> twilio_message \<Rightarrow> state \<Rightarrow> state" where
  "connection_message E (Start (Some p)) s = on_start p s"
| "connection_message E (Start None) s = s"
| "connection_message E (Media sid (Some m)) s = on_media E sid m s"
| "connection_message E (Media sid None) s = s"
| "connection_message E Mark s = on_mark s"
| "connection_message E (Stop sid) s = on_stop E sid s"
| "connection_message E Other s = s"
| "connection_message E Unparsable s = s"

subsection \<open>The variant of \<open>indexeeee.js\<close>\<close>

text \<open>
  \<open>indexeeee.js\<close> has the same variables and the same cases \<open>start\<close> and \<open>mark\<close>; its
  helpers \<open>handleEndOfSpeech\<close> and \<open>promptAIIfSilent\<close> only write to the log, and its
  cases \<open>media\<close> and \<open>stop\<close> are:
  \<^verbatim>\<open>
  case "media":
    latestMediaTimestamp = data.media.timestamp
    if (data.media.track === "inbound") {
      incomingAudioBuffer = Buffer.concat([incomingAudioBuffer, Buffer.from(data.media.payload, "base64")])
      if (openAiWs.readyState === WebSocket.OPEN) {
        openAiWs.send(JSON.stringify(audioAppend))
      }
    }
    if (!customerNumbers.has(data.streamSid)) {
      customerNumbers.set(data.streamSid, customerNumber)
    }
    promptAIIfSilent()
    break
  case "stop":
    customerNumbers.delete(data.streamSid)
    if (incomingAudioBuffer.length > 0 || outgoingAudioBuffer.length > 0) {
      try {
        const filePaths = await saveRecording(streamSid, incomingAudioBuffer, outgoingAudioBuffer)
      } catch (error) { ... }
      incomingAudioBuffer = Buffer.alloc(0)
      outgoingAudioBuffer = Buffer.alloc(0)
    } else { ... }
    break
  \<close>
\<close>

definition on_media_indexeeee ::
  "env \<Rightarrow> string option \<Rightarrow> media_payload \<Rightarrow> state \<Rightarrow> state" where
  "on_media_indexeeee E sid m s0 =
     (let s1 = s0\<lparr>latestMediaTimestamp := media_timestamp m\<rparr>;
          s2 = (if media_track m = Some ''inbound''
                then
                  let s = s1\<lparr>incomingAudioBuffer :=
                               incomingAudioBuffer s1 @ from_base64 E (media_payload m)\<rparr>
                  in if aiOpen s then emit (AiSend (InputAudioAppend (media_payload m))) s
                     else s
                else s1)
      in if customerNumbers s2 sid = None
         then s2\<lparr>customerNumbers := (customerNumbers s2)(sid \<mapsto> customerNumber s2)\<rparr>
         else s2)"

definition on_stop_indexeeee :: "string option \<Rightarrow> state \<Rightarrow> state" where
  "on_stop_indexeeee sid s0 =
     (let s1 = s0\<lparr>customerNumbers := (customerNumbers s0)(sid := None)\<rparr>
      in if length (incomingAudioBuffer s1) > 0 \<or> length (outgoingAudioBuffer s1) > 0
         then (emit (SaveRecording (streamSid s1) (incomingAudioBuffer s1)
                       (outgoingAudioBuffer s1)) s1)
                \<lparr>incomingAudioBuffer := [], outgoingAudioBuffer := []\<rparr>
         else s1)"

subsection \<open>The variant with the greeting\<close>

text \<open>
  The third copy of the bridge, \<open>src/unnamed/part_000\<close>, has the
  same variables except the two audio buffers, the same helpers, the same case \<open>mark\<close>
  and the same branch for \<open>response.content.done\<close> up to what it logs.  Its cases
  \<open>start\<close>, \<open>media\<close> and \<open>stop\<close> are:
  \<^verbatim>\<open>
  case "start":
    streamSid = data.start.streamSid
    customerNumber = data.start.customParameters?.customerNumber || data.start.To || data.start.to
    if (customerNumber) {
      customerNumber = standardizePhoneNumber(customerNumber)
      customerNumbers.set(streamSid, customerNumber)
      const greeting = "Hello! How can I assist you today?"
      connection.send(JSON.stringify(ttsEvent))
    } else {
      console.error("Customer number not found in start event")
    }
    break
  case "media":
    if (!customerNumber) {
      customerNumber = customerNumbers.get(streamSid)
    }
    if (!customerNumber) {
      console.error("Received media event without customerNumber for StreamSID:", streamSid)
      return
    }
    latestMediaTimestamp = data.media.timestamp
    if (openAiWs.readyState === WebSocket.OPEN) {
      openAiWs.send(JSON.stringify(audioAppend))
    } else { ... }
    await addConversation(customerNumber, "User audio received", false)
    if (!customerNumbers.has(data.streamSid)) {
      customerNumbers.set(data.streamSid, customerNumber)
    }
    if (data.media && data.media.track === "inbound" && data.media.chunk === "end") {
      handleEndOfSpeech()
    }
    promptAIIfSilent()
    break
  case "stop":
    customerNumbers.delete(data.streamSid)
    break
  \<close>
\<close>










subsection \<open>The life of a session\<close>

text \<open>
  What can happen to a session: a message on either connection, the AI socket opening
  (\<open>setTimeout(initializeSession, 100)\<close>) or closing, the telephony connection closing
  (which closes the AI socket), time passing, and the event loop running a due timer.
\<close>

datatype event =
    TwilioMessage twilio_message
  | OpenAiMessage "ai_response option"
  | OpenAiOpen
  | OpenAiClose
  | ConnectionClose
  | Elapse nat
  | TimerFires nat

fun step :: "env \<Rightarrow> event \<Rightarrow> state \<Rightarrow> state" where
  "step E (TwilioMessage m) s = connection_message E m s"
| "step E (OpenAiMessage r) s = openAiWs_message E r s"
| "step E OpenAiOpen s = snd (setTimeout InitializeSession 100 (s\<lparr>aiOpen := True\<rparr>))"
| "step E OpenAiClose s = s\<lparr>aiOpen := False\<rparr>"
| "step E ConnectionClose s = s\<lparr>aiOpen := False\<rparr>"
| "step E (Elapse d) s = s\<lparr>clock := clock s + d\<rparr>"
| "step E (TimerFires h) s = fire h s"

fun run_events :: "env \<Rightarrow> event list \<Rightarrow> state \<Rightarrow> state" where
  "run_events E [] s = s"
| "run_events E (e # es) s = run_events E es (step E e s)"



text \<open>The pending timers that are silence timers.\<close>

definition silence_timers :: "state \<Rightarrow> timer list" where
  "silence_timers s = filter (\<lambda>t. timer_task t = SilencePrompt) (timers s)"


text \<open>The store calls that are email updates.\<close>

definition email_updates :: "database \<Rightarrow> store_call list" where
  "email_updates d = filter is_EmailUpdate (journal d)"

text \<open>
  An environment, a store and messages to run the model on.  The codec of the
  environment is base64 on payloads made of the letter \<open>A\<close>: four of them are three
  zero bytes.
\<close>

definition demo_env :: env where
  "demo_env =
     \<lparr>from_base64 = (\<lambda>p. replicate (3 * (length p div 4)) 0),
      to_base64 = (\<lambda>b. replicate (4 * ((length b + 2) div 3)) CHR ''A''),
      saved_recording = (\<lambda>sid i out. Some ''recordings/out.mp3''),
      transcription = (\<lambda>path. Some ''hello''),
      updateCallTranscript = (\<lambda>sid k text d. (True, d)),
      processAIResponseAndUpdateLead = (\<lambda>sid text d. (True, d))\<rparr>"

definition demo_store :: database where
  "demo_store =
     \<lparr>leads = [\<lparr>lead_id = 1, lead_name = Some ''Unknown'',
                lead_phone_number = Some ''+12626912510'', lead_alternate_phone = None,
                lead_email = None, lead_status = Some ''called''\<rparr>],
      lead_seq = 1, conversations = [], journal = []\<rparr>"

definition demo_start :: twilio_message where
  "demo_start =
     Start (Some \<lparr>start_streamSid = Some ''MZ1'', start_customerNumber = Some ''+12626912510'',
                  start_To = None, start_to = None\<rparr>)"


definition demo_media :: "nat \<Rightarrow> twilio_message" where
  "demo_media ts =
     Media (Some ''MZ1'')
       (Some \<lparr>media_timestamp = ts, media_payload = ''AAAA'', media_track = Some ''inbound'',
               media_chunk = Some ''end''\<rparr>)"

definition text_delta :: "string \<Rightarrow> event" where
  "text_delta d =
     OpenAiMessage (Some \<lparr>response_type = ''response.text.delta'', response_delta = Some d,
                           response_item_id = None\<rparr>)"

definition audio_frame :: "string \<Rightarrow> event" where
  "audio_frame d =
     OpenAiMessage (Some \<lparr>response_type = ''response.audio.delta'', response_delta = Some d,
                           response_item_id = Some ''item1''\<rparr>)"

definition content_done_frame :: ai_response where
  "content_done_frame =
     \<lparr>response_type = ''response.content.done'', response_delta = None,
      response_item_id = None\<rparr>"

section \<open>Properties of phone canonicalisation\<close>

lemma standardizePhoneNumber_Some:
  "standardizePhoneNumber (Some n) =
     (let d = filter is_digit n
      in if length d = 11 \<and> take 1 d = ''1'' then Some (''+'' @ d)
         else if length d = 10 then Some (''+1'' @ d)
         else None)"
  by (cases n) (simp_all add: standardizePhoneNumber_def Let_def)

lemma is_digit_plus: "\<not> is_digit CHR ''+''"
  by (simp add: is_digit_def)

lemma is_digit_one: "is_digit CHR ''1''"
  by (simp add: is_digit_def)

lemma standardizePhoneNumber_digits:
  assumes "standardizePhoneNumber number = Some c"
  shows "\<exists>d. c = ''+'' @ d \<and> length d = 11 \<and> take 1 d = ''1'' \<and> filter is_digit d = d"
proof (cases number)
  case None
  with assms show ?thesis by (simp add: standardizePhoneNumber_def)
next
  case (Some n)
  let ?d = "filter is_digit n"
  from assms Some
  consider (eleven) "length ?d = 11" "take 1 ?d = ''1''" "c = ''+'' @ ?d"
    | (ten) "length ?d = 10" "c = ''+1'' @ ?d"
    by (auto simp: standardizePhoneNumber_Some Let_def split: if_splits)
  then show ?thesis
  proof cases
    case eleven
    then show ?thesis by (intro exI [of _ ?d]) simp
  next
    case ten
    then show ?thesis by (intro exI [of _ "''1'' @ ?d"]) (simp add: is_digit_one)
  qed
qed

text \<open>
  Claim C2.  \<open>standardizePhoneNumber\<close> returns \<open>+1\<close> followed by the ten significant
  digits of its input when the input has exactly ten digit characters, or exactly eleven
  of which the first is \<open>1\<close> (the ten significant digits are then the ones after that
  \<open>1\<close>); for every other digit count, and for a \<open>null\<close> or empty input, it returns
  \<open>null\<close>.
\<close>

theorem standardizePhoneNumber_canonical:
  "standardizePhoneNumber None = None \<and>
   standardizePhoneNumber (Some []) = None \<and>
   standardizePhoneNumber (Some s) =
     (if length (filter is_digit s) = 10
      then Some (''+1'' @ filter is_digit s)
      else if length (filter is_digit s) = 11 \<and> hd (filter is_digit s) = CHR ''1''
      then Some (''+1'' @ tl (filter is_digit s))
      else None)"
proof -
  let ?d = "filter is_digit s"
  have eleven: "take 1 ?d = ''1'' \<longleftrightarrow> hd ?d = CHR ''1''" if "length ?d = 11"
    using that by (cases ?d) simp_all
  have split: "''+'' @ ?d = ''+1'' @ tl ?d" if "length ?d = 11" "hd ?d = CHR ''1''"
    using that by (cases ?d) simp_all
  have "standardizePhoneNumber (Some s) =
     (if length ?d = 10 then Some (''+1'' @ ?d)
      else if length ?d = 11 \<and> hd ?d = CHR ''1'' then Some (''+1'' @ tl ?d)
      else None)"
    using eleven split by (auto simp: standardizePhoneNumber_Some Let_def)
  then show ?thesis
    by (simp add: standardizePhoneNumber_def)
qed

theorem standardizePhoneNumber_canonical_witness:
  "standardizePhoneNumber (Some ''(262) 691-2510'') = Some ''+12626912510'' \<and>
   standardizePhoneNumber (Some ''1-262-691-2510'') = Some ''+12626912510'' \<and>
   standardizePhoneNumber (Some ''691-2510'') = None \<and>
   standardizePhoneNumber (Some ''2-262-691-2510'') = None"
  using standardizePhoneNumber_canonical [of "''(262) 691-2510''"]
    standardizePhoneNumber_canonical [of "''1-262-691-2510''"]
    standardizePhoneNumber_canonical [of "''691-2510''"]
    standardizePhoneNumber_canonical [of "''2-262-691-2510''"]
  by (simp add: is_digit_def)

text \<open>
  Claim C10.  Phone canonicalisation is idempotent: whenever \<open>standardizePhoneNumber\<close>
  returns a canonical form, applying it to that canonical form returns the same form.
\<close>

theorem standardizePhoneNumber_idempotent:
  assumes "standardizePhoneNumber number = Some c"
  shows "standardizePhoneNumber (Some c) = Some c"
proof -
  from standardizePhoneNumber_digits [OF assms]
  obtain d where d: "c = ''+'' @ d" "length d = 11" "take 1 d = ''1''" "filter is_digit d = d"
    by blast
  then have "filter is_digit c = d"
    by (simp add: is_digit_plus)
  with d show ?thesis
    by (simp add: standardizePhoneNumber_Some Let_def)
qed

theorem standardizePhoneNumber_idempotent_witness:
  "standardizePhoneNumber (Some ''(262) 691-2510'') = Some ''+12626912510'' \<and>
   standardizePhoneNumber (Some ''+12626912510'') = Some ''+12626912510''"
proof -
  have h: "standardizePhoneNumber (Some ''(262) 691-2510'') = Some ''+12626912510''"
    by (simp add: standardizePhoneNumber_def is_digit_def)
  from standardizePhoneNumber_idempotent [OF h] h show ?thesis by simp
qed

section \<open>The extraction regex finds the email-shaped substrings\<close>

lemma run_le: "run p s i \<le> length s - i"
proof -
  have "length (takeWhile p (drop i s)) \<le> length (drop i s)"
    by (rule length_takeWhile_le)
  then show ?thesis by (simp add: run_def)
qed

lemma slice_within_run:
  assumes "n \<le> run p s i"
  shows "list_all p (slice s i (i + n))"
proof -
  let ?d = "drop i s"
  have "take n ?d = take n (takeWhile p ?d @ dropWhile p ?d)" by simp
  also have "\<dots> = take n (takeWhile p ?d)"
    using assms unfolding run_def by (simp only: take_append) simp
  finally have "set (take n ?d) \<subseteq> set (takeWhile p ?d)"
    by (simp add: set_take_subset)
  then have "\<forall>x\<in>set (take n ?d). p x"
    by (auto dest: set_takeWhileD)
  then show ?thesis by (simp add: slice_def list_all_iff)
qed

lemma run_covers_slice:
  assumes "list_all p (slice s i a)" and "a \<le> length s"
  shows "a - i \<le> run p s i"
proof -
  let ?d = "drop i s"
  have all: "\<forall>x\<in>set (take (a - i) ?d). p x"
    using assms(1) by (simp add: slice_def list_all_iff)
  have "takeWhile p ?d = takeWhile p (take (a - i) ?d @ drop (a - i) ?d)"
    by (simp only: append_take_drop_id)
  also have "\<dots> = take (a - i) ?d @ takeWhile p (drop (a - i) ?d)"
    using all by (simp only: takeWhile_append2)
  finally have "length (take (a - i) ?d) \<le> run p s i"
    by (simp add: run_def)
  moreover have "length (take (a - i) ?d) = a - i"
    using assms(2) by simp
  ultimately show ?thesis by simp
qed

lemma tld_bt_sound:
  "tld_bt s b n = Some j \<Longrightarrow> \<exists>m. j = b + m \<and> 2 \<le> m \<and> m \<le> n \<and> word_boundary s j"
proof (induction n)
  case 0
  then show ?case by simp
next
  case (Suc n)
  show ?case
  proof (cases "\<not> Suc n < 2 \<and> word_boundary s (b + Suc n)")
    case True
    with Suc.prems have "j = b + Suc n" by simp
    with True show ?thesis by (intro exI [of _ "Suc n"]) simp
  next
    case False
    with Suc.prems have "tld_bt s b n = Some j" by (auto split: if_splits)
    from Suc.IH [OF this] show ?thesis by (auto intro: le_SucI)
  qed
qed

lemma tld_bt_complete:
  "2 \<le> m \<Longrightarrow> m \<le> n \<Longrightarrow> word_boundary s (b + m) \<Longrightarrow> tld_bt s b n \<noteq> None"
proof (induction n)
  case 0
  then show ?case by simp
next
  case (Suc n)
  show ?case
  proof (cases "m = Suc n")
    case True
    with Suc.prems show ?thesis by simp
  next
    case False
    with Suc.prems have "m \<le> n" by simp
    from Suc.IH [OF Suc.prems(1) this Suc.prems(3)] Suc.prems(1) \<open>m \<le> n\<close>
    show ?thesis by simp
  qed
qed

lemma domain_bt_sound:
  "domain_bt s a k = Some j \<Longrightarrow>
     \<exists>k'. 1 \<le> k' \<and> k' \<le> k \<and> char_at s (a + k') = Some CHR ''.'' \<and>
          tld_bt s (a + k' + 1) (run is_tld s (a + k' + 1)) = Some j"
proof (induction k)
  case 0
  then show ?case by simp
next
  case (Suc k)
  show ?case
  proof (cases "char_at s (a + Suc k) = Some CHR ''.'' \<and>
      tld_bt s (a + Suc k + 1) (run is_tld s (a + Suc k + 1)) \<noteq> None")
    case True
    with Suc.prems
    have "tld_bt s (a + Suc k + 1) (run is_tld s (a + Suc k + 1)) = Some j" by auto
    with True show ?thesis by (intro exI [of _ "Suc k"]) simp
  next
    case False
    with Suc.prems have "domain_bt s a k = Some j" by (auto split: if_splits option.splits)
    from Suc.IH [OF this] show ?thesis by (auto intro: le_SucI)
  qed
qed

lemma domain_bt_complete:
  "1 \<le> k' \<Longrightarrow> k' \<le> k \<Longrightarrow> char_at s (a + k') = Some CHR ''.'' \<Longrightarrow>
     tld_bt s (a + k' + 1) (run is_tld s (a + k' + 1)) \<noteq> None \<Longrightarrow>
     domain_bt s a k \<noteq> None"
proof (induction k)
  case 0
  then show ?case by simp
next
  case (Suc k)
  show ?case
  proof (cases "k' = Suc k")
    case True
    with Suc.prems show ?thesis by auto
  next
    case False
    with Suc.prems have "k' \<le> k" by simp
    from Suc.IH [OF Suc.prems(1) this Suc.prems(3) Suc.prems(4)]
    show ?thesis by (auto split: option.splits)
  qed
qed

lemma local_bt_sound:
  "local_bt s i n = Some j \<Longrightarrow>
     \<exists>n'. 1 \<le> n' \<and> n' \<le> n \<and> char_at s (i + n') = Some CHR ''@'' \<and>
          domain_bt s (i + n' + 1) (run is_domain s (i + n' + 1)) = Some j"
proof (induction n)
  case 0
  then show ?case by simp
next
  case (Suc n)
  show ?case
  proof (cases "char_at s (i + Suc n) = Some CHR ''@'' \<and>
      domain_bt s (i + Suc n + 1) (run is_domain s (i + Suc n + 1)) \<noteq> None")
    case True
    with Suc.prems
    have "domain_bt s (i + Suc n + 1) (run is_domain s (i + Suc n + 1)) = Some j" by auto
    with True show ?thesis by (intro exI [of _ "Suc n"]) simp
  next
    case False
    with Suc.prems have "local_bt s i n = Some j" by (auto split: if_splits option.splits)
    from Suc.IH [OF this] show ?thesis by (auto intro: le_SucI)
  qed
qed

lemma local_bt_complete:
  "1 \<le> n' \<Longrightarrow> n' \<le> n \<Longrightarrow> char_at s (i + n') = Some CHR ''@'' \<Longrightarrow>
     domain_bt s (i + n' + 1) (run is_domain s (i + n' + 1)) \<noteq> None \<Longrightarrow>
     local_bt s i n \<noteq> None"
proof (induction n)
  case 0
  then show ?case by simp
next
  case (Suc n)
  show ?case
  proof (cases "n' = Suc n")
    case True
    with Suc.prems show ?thesis by auto
  next
    case False
    with Suc.prems have "n' \<le> n" by simp
    from Suc.IH [OF Suc.prems(1) this Suc.prems(3) Suc.prems(4)]
    show ?thesis by (auto split: option.splits)
  qed
qed

lemma email_shaped_at_iff:
  "email_shaped_at s i j \<longleftrightarrow>
     word_boundary s i \<and> word_boundary s j \<and> j \<le> length s \<and>
     (\<exists>a b. i < a \<and> list_all is_local (slice s i a) \<and> char_at s a = Some CHR ''@'' \<and>
        a + 1 < b \<and> list_all is_domain (slice s (a + 1) b) \<and>
        char_at s b = Some CHR ''.'' \<and>
        b + 3 \<le> j \<and> list_all is_tld (slice s (b + 1) j))"
  (is "?L \<longleftrightarrow> ?R")
proof
  assume ?L
  then show ?R unfolding email_shaped_at_def list_ex_iff by blast
next
  assume r: ?R
  then obtain a b where ab: "i < a" "list_all is_local (slice s i a)"
    "char_at s a = Some CHR ''@''" "a + 1 < b" "list_all is_domain (slice s (a + 1) b)"
    "char_at s b = Some CHR ''.''" "b + 3 \<le> j" "list_all is_tld (slice s (b + 1) j)"
    by blast
  then have "a \<in> set [i..<j]" "b \<in> set [a..<j]" by simp_all
  with r ab show ?L unfolding email_shaped_at_def list_ex_iff by blast
qed

lemma char_at_Some_less: "char_at s i = Some c \<Longrightarrow> i < length s"
  by (simp add: char_at_def split: if_splits)

lemma emailRegex_at_sound:
  assumes "emailRegex_at s i = Some j"
  shows "email_shaped_at s i j"
proof -
  from assms have wb: "word_boundary s i" and l: "local_bt s i (run is_local s i) = Some j"
    by (auto simp: emailRegex_at_def split: if_splits)
  from local_bt_sound [OF l] obtain n where n: "1 \<le> n" "n \<le> run is_local s i"
    "char_at s (i + n) = Some CHR ''@''"
    "domain_bt s (i + n + 1) (run is_domain s (i + n + 1)) = Some j" by blast
  from domain_bt_sound [OF n(4)] obtain k where k: "1 \<le> k"
    "k \<le> run is_domain s (i + n + 1)"
    "char_at s (i + n + 1 + k) = Some CHR ''.''"
    "tld_bt s (i + n + 1 + k + 1) (run is_tld s (i + n + 1 + k + 1)) = Some j" by blast
  from tld_bt_sound [OF k(4)] obtain m where m: "j = i + n + 1 + k + 1 + m" "2 \<le> m"
    "m \<le> run is_tld s (i + n + 1 + k + 1)" "word_boundary s j" by blast
  let ?a = "i + n" and ?b = "i + n + 1 + k"
  have "m \<le> length s - (?b + 1)"
    using m(3) run_le [of is_tld s "?b + 1"] by simp
  with m(1,2) have j: "j \<le> length s" by simp
  have "list_all is_local (slice s i ?a)"
    by (rule slice_within_run [OF n(2)])
  moreover have "list_all is_domain (slice s (?a + 1) ?b)"
    using slice_within_run [OF k(2)] by simp
  moreover have "list_all is_tld (slice s (?b + 1) j)"
    using slice_within_run [OF m(3)] m(1) by (simp add: add.assoc)
  moreover have "i < ?a" "?a + 1 < ?b" "?b + 3 \<le> j"
    using n(1) k(1) m(1,2) by simp_all
  ultimately show ?thesis
    unfolding email_shaped_at_iff using wb m(4) j n(3) k(3) by blast
qed

lemma emailRegex_at_complete:
  assumes "email_shaped_at s i j"
  shows "emailRegex_at s i \<noteq> None"
proof -
  from assms obtain a b where wb: "word_boundary s i" "word_boundary s j"
    and j: "j \<le> length s"
    and ab: "i < a" "list_all is_local (slice s i a)"
    "char_at s a = Some CHR ''@''" "a + 1 < b" "list_all is_domain (slice s (a + 1) b)"
    "char_at s b = Some CHR ''.''" "b + 3 \<le> j" "list_all is_tld (slice s (b + 1) j)"
    unfolding email_shaped_at_iff by blast
  have a: "a \<le> length s" and b: "b \<le> length s"
    using char_at_Some_less [OF ab(3)] char_at_Some_less [OF ab(6)] by simp_all
  have "j - (b + 1) \<le> run is_tld s (b + 1)"
    by (rule run_covers_slice [OF ab(8) j])
  moreover have "2 \<le> j - (b + 1)" "b + 1 + (j - (b + 1)) = j"
    using ab(7) by simp_all
  ultimately have t: "tld_bt s (b + 1) (run is_tld s (b + 1)) \<noteq> None"
    using tld_bt_complete [of "j - (b + 1)" "run is_tld s (b + 1)" s "b + 1"] wb(2) by simp
  have "b - (a + 1) \<le> run is_domain s (a + 1)"
    by (rule run_covers_slice [OF ab(5) b])
  moreover have "1 \<le> b - (a + 1)" "a + 1 + (b - (a + 1)) = b"
    using ab(4) by simp_all
  ultimately have d: "domain_bt s (a + 1) (run is_domain s (a + 1)) \<noteq> None"
    using domain_bt_complete [of "b - (a + 1)" "run is_domain s (a + 1)" s "a + 1"]
      ab(6) t by simp
  have "a - i \<le> run is_local s i"
    by (rule run_covers_slice [OF ab(2) a])
  moreover have "1 \<le> a - i" "i + (a - i) = a"
    using ab(1) by simp_all
  ultimately have "local_bt s i (run is_local s i) \<noteq> None"
    using local_bt_complete [of "a - i" "run is_local s i" s i] ab(3) d by simp
  with wb(1) show ?thesis by (simp add: emailRegex_at_def)
qed

lemma regex_search_None: "regex_search m xs = None \<longleftrightarrow> (\<forall>i\<in>set xs. m i = None)"
  by (induction xs) (auto split: option.splits)

lemma regex_search_Some:
  "regex_search m xs = Some (i, r) \<Longrightarrow> i \<in> set xs \<and> m i = Some r"
  by (induction xs) (auto split: option.splits)

lemma regex_search_leftmost:
  "regex_search m xs = Some (i, r) \<Longrightarrow> sorted xs \<Longrightarrow> x \<in> set xs \<Longrightarrow> x < i \<Longrightarrow>
     m x = None"
proof (induction xs)
  case Nil
  then show ?case by simp
next
  case (Cons y ys)
  show ?case
  proof (cases "m y")
    case None
    with Cons.prems(1) have "regex_search m ys = Some (i, r)" by simp
    with Cons None show ?thesis by auto
  next
    case (Some r')
    with Cons.prems(1) have "i = y" by simp
    with Cons.prems show ?thesis by auto
  qed
qed

lemma email_shaped_at_bounds: "email_shaped_at s i j \<Longrightarrow> i < j \<and> j \<le> length s"
  unfolding email_shaped_at_iff by auto

lemma emailMatch_None_iff:
  "emailMatch s = None \<longleftrightarrow> (\<forall>i j. \<not> email_shaped_at s i j)"
proof
  assume none: "emailMatch s = None"
  show "\<forall>i j. \<not> email_shaped_at s i j"
  proof (intro allI notI)
    fix i j
    assume e: "email_shaped_at s i j"
    from none have "regex_search (emailRegex_at s) [0..<Suc (length s)] = None"
      by (auto simp: emailMatch_def split: option.splits)
    moreover from email_shaped_at_bounds [OF e] have "i \<in> set [0..<Suc (length s)]"
      by simp
    ultimately have "emailRegex_at s i = None"
      unfolding regex_search_None by blast
    with emailRegex_at_complete [OF e] show False by simp
  qed
next
  assume no: "\<forall>i j. \<not> email_shaped_at s i j"
  have "regex_search (emailRegex_at s) [0..<Suc (length s)] = None"
    unfolding regex_search_None
  proof
    fix i
    assume "i \<in> set [0..<Suc (length s)]"
    show "emailRegex_at s i = None"
    proof (cases "emailRegex_at s i")
      case None
      then show ?thesis .
    next
      case (Some j)
      from emailRegex_at_sound [OF this] no show ?thesis by blast
    qed
  qed
  then show "emailMatch s = None" by (simp add: emailMatch_def)
qed

lemma emailMatch_Some:
  assumes "emailMatch s = Some e"
  shows "\<exists>i j. email_shaped_at s i j \<and> e = slice s i j \<and>
           (\<forall>i' j'. email_shaped_at s i' j' \<longrightarrow> i \<le> i')"
proof -
  from assms obtain i j
    where f: "regex_search (emailRegex_at s) [0..<Suc (length s)] = Some (i, j)"
      and e: "e = slice s i j"
    by (auto simp: emailMatch_def split: option.splits)
  from regex_search_Some [OF f] have m: "emailRegex_at s i = Some j" by simp
  have first: "i \<le> i'" if "email_shaped_at s i' j'" for i' j'
  proof (rule ccontr)
    assume "\<not> i \<le> i'"
    then have "i' < i" by simp
    moreover from email_shaped_at_bounds [OF that] have "i' \<in> set [0..<Suc (length s)]"
      by simp
    ultimately have "emailRegex_at s i' = None"
      by (rule regex_search_leftmost [OF f sorted_upt, rotated])
    with emailRegex_at_complete [OF that] show False by simp
  qed
  from emailRegex_at_sound [OF m] e first show ?thesis by blast
qed

section \<open>The match is the leftmost and, from there, the longest\<close>

lemma is_local_at: "\<not> is_local CHR ''@''"
  by (simp add: is_local_def is_alpha_def is_digit_def)

lemma is_tld_dot: "\<not> is_tld CHR ''.''"
  by (simp add: is_tld_def is_alpha_def)

lemma slice_nth:
  assumes "list_all p (slice s x y)" and "x \<le> z" and "z < y" and "z < length s"
  shows "p (s ! z)"
proof -
  have "length (slice s x y) = min (length s - x) (y - x)"
    by (simp add: slice_def)
  then have "z - x < length (slice s x y)"
    using assms(2-4) by linarith
  then have "p (slice s x y ! (z - x))"
    using assms(1) by (simp add: list_all_length)
  moreover have "slice s x y ! (z - x) = s ! z"
    using assms(2-4) by (simp add: slice_def)
  ultimately show ?thesis by simp
qed

lemma tld_bt_greatest:
  "tld_bt s b n = Some j \<Longrightarrow> 2 \<le> m \<Longrightarrow> m \<le> n \<Longrightarrow> word_boundary s (b + m) \<Longrightarrow>
     b + m \<le> j"
proof (induction n)
  case 0
  then show ?case by simp
next
  case (Suc n)
  show ?case
  proof (cases "m = Suc n")
    case True
    with Suc.prems show ?thesis by simp
  next
    case False
    with Suc.prems have m: "m \<le> n" by simp
    show ?thesis
    proof (cases "\<not> Suc n < 2 \<and> word_boundary s (b + Suc n)")
      case True
      with Suc.prems(1) have "j = b + Suc n" by simp
      with m show ?thesis by simp
    next
      case False
      with Suc.prems(1) have "tld_bt s b n = Some j" by (auto split: if_splits)
      from Suc.IH [OF this Suc.prems(2) m Suc.prems(4)] show ?thesis .
    qed
  qed
qed

lemma tld_bt_range:
  assumes "tld_bt s b (run is_tld s b) = Some j"
  shows "b < j \<and> j \<le> length s \<and> list_all is_tld (slice s b j)"
proof -
  from tld_bt_sound [OF assms] obtain m where m: "j = b + m" "2 \<le> m" "m \<le> run is_tld s b"
    by blast
  from m(3) run_le [of is_tld s b] have "m \<le> length s - b" by simp
  with m(1,2) have "j \<le> length s" by simp
  moreover from slice_within_run [OF m(3)] m(1) have "list_all is_tld (slice s b j)"
    by simp
  ultimately show ?thesis using m(1,2) by simp
qed

lemma domain_bt_greatest:
  "domain_bt s a k = Some j \<Longrightarrow> 1 \<le> k' \<Longrightarrow> k' \<le> k \<Longrightarrow>
     char_at s (a + k') = Some CHR ''.'' \<Longrightarrow>
     tld_bt s (a + k' + 1) (run is_tld s (a + k' + 1)) = Some j' \<Longrightarrow> j' \<le> j"
proof (induction k)
  case 0
  then show ?case by simp
next
  case (Suc k)
  let ?here = "char_at s (a + Suc k) = Some CHR ''.'' \<and>
      tld_bt s (a + Suc k + 1) (run is_tld s (a + Suc k + 1)) \<noteq> None"
  show ?case
  proof (cases "k' = Suc k")
    case True
    with Suc.prems show ?thesis by simp
  next
    case False
    with Suc.prems have k': "k' \<le> k" by simp
    show ?thesis
    proof (cases ?here)
      case True
      with Suc.prems(1)
      have t: "tld_bt s (a + Suc k + 1) (run is_tld s (a + Suc k + 1)) = Some j" by auto
      from tld_bt_range [OF t] have j: "a + Suc k + 1 < j" by simp
      from True have dot: "a + Suc k < length s" "s ! (a + Suc k) = CHR ''.''"
        by (auto simp: char_at_def split: if_splits)
      from tld_bt_range [OF Suc.prems(5)]
      have r: "list_all is_tld (slice s (a + k' + 1) j')" by simp
      have "j' \<le> a + Suc k"
      proof (rule ccontr)
        assume "\<not> j' \<le> a + Suc k"
        then have "a + Suc k < j'" by simp
        moreover have "a + k' + 1 \<le> a + Suc k" using k' by simp
        ultimately have "is_tld (s ! (a + Suc k))"
          using slice_nth [OF r] dot(1) by blast
        with dot(2) is_tld_dot show False by simp
      qed
      with j show ?thesis by simp
    next
      case False
      with Suc.prems(1) have "domain_bt s a k = Some j"
        by (auto split: if_splits option.splits)
      from Suc.IH [OF this Suc.prems(2) k' Suc.prems(4) Suc.prems(5)] show ?thesis .
    qed
  qed
qed

lemma emailRegex_at_longest:
  assumes "emailRegex_at s i = Some j" and "email_shaped_at s i j'"
  shows "j' \<le> j"
proof -
  from assms(1) have l: "local_bt s i (run is_local s i) = Some j"
    by (auto simp: emailRegex_at_def split: if_splits)
  from local_bt_sound [OF l] obtain n where n: "1 \<le> n" "n \<le> run is_local s i"
    "char_at s (i + n) = Some CHR ''@''"
    "domain_bt s (i + n + 1) (run is_domain s (i + n + 1)) = Some j" by blast
  from assms(2) obtain a b where wb: "word_boundary s j'" and j': "j' \<le> length s"
    and ab: "i < a" "list_all is_local (slice s i a)"
    "char_at s a = Some CHR ''@''" "a + 1 < b" "list_all is_domain (slice s (a + 1) b)"
    "char_at s b = Some CHR ''.''" "b + 3 \<le> j'" "list_all is_tld (slice s (b + 1) j')"
    unfolding email_shaped_at_iff by blast
  have at_n: "i + n < length s" "s ! (i + n) = CHR ''@''"
    using n(3) by (auto simp: char_at_def split: if_splits)
  have at_a: "a < length s" "s ! a = CHR ''@''"
    using ab(3) by (auto simp: char_at_def split: if_splits)
  have a: "a = i + n"
  proof (rule ccontr)
    assume "a \<noteq> i + n"
    then consider "a < i + n" | "i + n < a" by linarith
    then show False
    proof cases
      case 1
      from slice_nth [OF slice_within_run [OF n(2)], of a] ab(1) 1 at_a
      show False by (simp add: is_local_at)
    next
      case 2
      from slice_nth [OF ab(2), of "i + n"] 2 at_n
      show False by (simp add: is_local_at)
    qed
  qed
  have b: "b \<le> length s"
    using char_at_Some_less [OF ab(6)] by simp
  have "j' - (b + 1) \<le> run is_tld s (b + 1)"
    by (rule run_covers_slice [OF ab(8) j'])
  moreover have m: "2 \<le> j' - (b + 1)" "b + 1 + (j' - (b + 1)) = j'"
    using ab(7) by simp_all
  ultimately obtain j'' where t: "tld_bt s (b + 1) (run is_tld s (b + 1)) = Some j''"
    using tld_bt_complete [of "j' - (b + 1)" "run is_tld s (b + 1)" s "b + 1"] wb by auto
  have "b + 1 + (j' - (b + 1)) \<le> j''"
    using tld_bt_greatest [OF t m(1) \<open>j' - (b + 1) \<le> run is_tld s (b + 1)\<close>] wb m(2)
    by simp
  with m(2) have "j' \<le> j''" by simp
  moreover have "j'' \<le> j"
  proof -
    have k: "b - (a + 1) \<le> run is_domain s (a + 1)"
      by (rule run_covers_slice [OF ab(5) b])
    have eq: "a + 1 + (b - (a + 1)) = b" "1 \<le> b - (a + 1)"
      using ab(4) by simp_all
    from domain_bt_greatest [of s "a + 1" "run is_domain s (a + 1)" j "b - (a + 1)" j'']
      n(4) a k eq ab(6) t
    show ?thesis by simp
  qed
  ultimately show ?thesis by simp
qed

lemma emailMatch_maximal:
  assumes "emailMatch s = Some e"
  shows "\<exists>i j. e = slice s i j \<and> email_shaped_at s i j \<and>
           (\<forall>i' j'. email_shaped_at s i' j' \<longrightarrow> i \<le> i' \<and> (i' = i \<longrightarrow> j' \<le> j))"
proof -
  from assms obtain i j
    where f: "regex_search (emailRegex_at s) [0..<Suc (length s)] = Some (i, j)"
      and e: "e = slice s i j"
    by (auto simp: emailMatch_def split: option.splits)
  from regex_search_Some [OF f] have m: "emailRegex_at s i = Some j" by simp
  have first: "i \<le> i'" if "email_shaped_at s i' j'" for i' j'
  proof (rule ccontr)
    assume "\<not> i \<le> i'"
    then have "i' < i" by simp
    moreover from email_shaped_at_bounds [OF that] have "i' \<in> set [0..<Suc (length s)]"
      by simp
    ultimately have "emailRegex_at s i' = None"
      by (rule regex_search_leftmost [OF f sorted_upt, rotated])
    with emailRegex_at_complete [OF that] show False by simp
  qed
  have "i \<le> i' \<and> (i' = i \<longrightarrow> j' \<le> j)" if "email_shaped_at s i' j'" for i' j'
    using first [OF that] emailRegex_at_longest [OF m] that by blast
  with emailRegex_at_sound [OF m] e show ?thesis by blast
qed

lemma email_occurrences_set:
  "set (email_occurrences s) = {(i, j). email_shaped_at s i j}"
proof -
  have "i < Suc (length s) \<and> j < Suc (length s)" if "email_shaped_at s i j" for i j
    using email_shaped_at_bounds [OF that] by simp
  then show ?thesis
    unfolding email_occurrences_def by (auto simp del: upt_Suc)
qed

lemma email_substrings_set:
  "set (email_substrings s) =
     {(i, j). email_shaped_at s i j \<and>
        (\<forall>i' j'. email_shaped_at s i' j' \<longrightarrow> i' \<le> i \<and> j \<le> j' \<longrightarrow> i' = i \<and> j' = j)}"
  unfolding email_substrings_def
  by (auto simp: list_all_iff email_occurrences_set)

lemma emailMatch_in_substrings:
  assumes "emailMatch s = Some e"
  shows "\<exists>i j. e = slice s i j \<and> (i, j) \<in> set (email_substrings s)"
proof -
  from emailMatch_maximal [OF assms] obtain i j where ij: "e = slice s i j"
    "email_shaped_at s i j"
    "\<forall>i' j'. email_shaped_at s i' j' \<longrightarrow> i \<le> i' \<and> (i' = i \<longrightarrow> j' \<le> j)"
    by blast
  have "i' = i \<and> j' = j" if "email_shaped_at s i' j'" "i' \<le> i" "j \<le> j'" for i' j'
    using ij(3) that by (metis le_antisym)
  with ij(2) have "(i, j) \<in> set (email_substrings s)"
    unfolding email_substrings_set by blast
  with ij(1) show ?thesis by blast
qed

lemma email_substrings_Nil: "email_substrings s = [] \<longleftrightarrow> emailMatch s = None"
proof
  assume "email_substrings s = []"
  then show "emailMatch s = None"
    using emailMatch_in_substrings [of s] by (cases "emailMatch s") auto
next
  assume "emailMatch s = None"
  then have "\<forall>i j. \<not> email_shaped_at s i j" by (simp add: emailMatch_None_iff)
  then have "set (email_substrings s) = {}" unfolding email_substrings_set by simp
  then show "email_substrings s = []" by simp
qed


section \<open>The handlers of the telephony connection\<close>

lemma emit_simps [simp]:
  "streamSid (emit e s) = streamSid s"
  "customerNumber (emit e s) = customerNumber s"
  "latestMediaTimestamp (emit e s) = latestMediaTimestamp s"
  "markQueue (emit e s) = markQueue s"
  "customerNumbers (emit e s) = customerNumbers s"
  "silenceTimeout (emit e s) = silenceTimeout s"
  "incomingAudioBuffer (emit e s) = incomingAudioBuffer s"
  "outgoingAudioBuffer (emit e s) = outgoingAudioBuffer s"
  "aiOpen (emit e s) = aiOpen s"
  "clock (emit e s) = clock s"
  "timers (emit e s) = timers s"
  "nextTimer (emit e s) = nextTimer s"
  "store (emit e s) = store s"
  "trace (emit e s) = trace s @ [e]"
  by (simp_all add: emit_def)

lemma handleEndOfSpeech_simps [simp]:
  "latestMediaTimestamp (handleEndOfSpeech s) = latestMediaTimestamp s"
  "silenceTimeout (handleEndOfSpeech s) = silenceTimeout s"
  "incomingAudioBuffer (handleEndOfSpeech s) = incomingAudioBuffer s"
  "outgoingAudioBuffer (handleEndOfSpeech s) = outgoingAudioBuffer s"
  "aiOpen (handleEndOfSpeech s) = aiOpen s"
  "clock (handleEndOfSpeech s) = clock s"
  "timers (handleEndOfSpeech s) = timers s"
  "nextTimer (handleEndOfSpeech s) = nextTimer s"
  "store (handleEndOfSpeech s) = store s"
  "trace (handleEndOfSpeech s) = trace s @ (if aiOpen s then [AiSend SpeechStopped] else [])"
  by (simp_all add: handleEndOfSpeech_def)

lemma promptAIIfSilent_simps [simp]:
  "latestMediaTimestamp (promptAIIfSilent ms s) = latestMediaTimestamp s"
  "incomingAudioBuffer (promptAIIfSilent ms s) = incomingAudioBuffer s"
  "outgoingAudioBuffer (promptAIIfSilent ms s) = outgoingAudioBuffer s"
  "aiOpen (promptAIIfSilent ms s) = aiOpen s"
  "clock (promptAIIfSilent ms s) = clock s"
  "store (promptAIIfSilent ms s) = store s"
  "trace (promptAIIfSilent ms s) = trace s"
  by (simp_all add: promptAIIfSilent_def setTimeout_def clearTimeout_def Let_def
      split: option.splits)


text \<open>
  Claim C9.  A \<open>mark\<close> event with an empty \<open>markQueue\<close> leaves the whole state as it
  was (the model of the handler has no failing branch for it); with a non-empty queue it
  removes exactly the entry at the head and changes nothing else.
\<close>

theorem mark_pops_one:
  "connection_message E Mark s =
     (if markQueue s = [] then s else s\<lparr>markQueue := tl (markQueue s)\<rparr>) \<and>
   length (markQueue (connection_message E Mark s)) = length (markQueue s) - 1"
  by (simp add: on_mark_def)

theorem mark_pops_one_witness:
  "connection_message demo_env Mark (initial demo_store) = initial demo_store \<and>
   connection_message demo_env Mark ((initial demo_store)\<lparr>markQueue := [''a'', ''b'']\<rparr>) =
     (initial demo_store)\<lparr>markQueue := [''b'']\<rparr>"
  using mark_pops_one [of demo_env "initial demo_store"]
    mark_pops_one [of demo_env "(initial demo_store)\<lparr>markQueue := [''a'', ''b'']\<rparr>"]
  by (simp add: initial_def)

text \<open>
  Claim C7.  A \<open>start\<close> event followed at once by a \<open>stop\<close> event saves no recording
  and transcribes nothing: the trace of sends and collaborator calls, and the store, are
  what they were before the two events.  More generally \<open>stop\<close> leaves the trace and the
  store as they were whenever the audio it would save is empty.  This holds of the
  handlers of \<open>admin.js\<close>, which save the outgoing audio only, and of those of
  \<open>indexeeee.js\<close>.
\<close>

theorem start_stop_no_recording:
  "trace (connection_message E (Stop sid) (connection_message E (Start (Some p)) s)) = trace s \<and>
   store (connection_message E (Stop sid) (connection_message E (Start (Some p)) s)) = store s \<and>
   trace (on_stop_indexeeee sid (on_start p s)) = trace s \<and>
   store (on_stop_indexeeee sid (on_start p s)) = store s \<and>
   (outgoingAudioBuffer s = [] \<longrightarrow>
      trace (connection_message E (Stop sid) s) = trace s \<and>
      store (connection_message E (Stop sid) s) = store s) \<and>
   (incomingAudioBuffer s = [] \<and> outgoingAudioBuffer s = [] \<longrightarrow>
      trace (on_stop_indexeeee sid s) = trace s \<and>
      store (on_stop_indexeeee sid s) = store s)"
  by (simp add: on_start_def on_stop_def on_stop_indexeeee_def)

theorem start_stop_no_recording_witness:
  "outgoingAudioBuffer (run_events demo_env [TwilioMessage demo_start] (initial demo_store)) = [] \<and>
   filter is_recording_effect
     (trace (run_events demo_env [TwilioMessage demo_start, TwilioMessage (Stop (Some ''MZ1''))]
        (initial demo_store))) = [] \<and>
   store (run_events demo_env [TwilioMessage demo_start, TwilioMessage (Stop (Some ''MZ1''))]
        (initial demo_store)) = demo_store"
proof -
  let ?p = "\<lparr>start_streamSid = Some ''MZ1'', start_customerNumber = Some ''+12626912510'',
    start_To = None, start_to = None\<rparr>"
  note t = start_stop_no_recording [of demo_env "Some ''MZ1''" ?p "initial demo_store"]
  from t have "trace (connection_message demo_env (Stop (Some ''MZ1''))
      (connection_message demo_env (Start (Some ?p)) (initial demo_store))) =
      trace (initial demo_store)"
    by (rule conjunct1)
  then show ?thesis
    by code_simp
qed

lemma addConversation_user_audio:
  "addConversation customer ''User audio received'' False d =
     called (ConversationAdd customer ''User audio received'' False) d"
  by (simp add: addConversation_def Let_def split: option.splits)

lemma on_media_fields:
  "latestMediaTimestamp (on_media E sid m s) = media_timestamp m"
  "incomingAudioBuffer (on_media E sid m s) =
     (if aiOpen s then incomingAudioBuffer s @ from_base64 E (media_payload m)
      else incomingAudioBuffer s)"
  "outgoingAudioBuffer (on_media E sid m s) = outgoingAudioBuffer s"
  "trace (on_media E sid m s) =
     trace s @ (if aiOpen s then [AiSend (InputAudioAppend (media_payload m))] else []) @
       (if aiOpen s \<and> media_track m = Some ''inbound'' \<and> media_chunk m = Some ''end''
        then [AiSend SpeechStopped] else [])"
  "store (on_media E sid m s) =
     called (ConversationAdd (customerNumber s) ''User audio received'' False) (store s)"
  by (simp_all add: on_media_def Let_def addConversation_user_audio)

lemma on_media_indexeeee_fields:
  "latestMediaTimestamp (on_media_indexeeee E sid m s) = media_timestamp m"
  "incomingAudioBuffer (on_media_indexeeee E sid m s) =
     (if media_track m = Some ''inbound''
      then incomingAudioBuffer s @ from_base64 E (media_payload m)
      else incomingAudioBuffer s)"
  "trace (on_media_indexeeee E sid m s) =
     trace s @ (if media_track m = Some ''inbound'' \<and> aiOpen s
                then [AiSend (InputAudioAppend (media_payload m))] else [])"
  by (simp_all add: on_media_indexeeee_def Let_def)




text \<open>
  Claim C8, as the store has it.  The \<open>media\<close> handler calls \<open>addConversation\<close> with the
  placeholder \<open>User audio received\<close>, flagged user-authored, for the session's customer
  number, and the store discards that content: the call is made, and the tables
  \<open>conversations\<close> and \<open>leads\<close> are left as they were.
\<close>

theorem media_records_no_entry:
  "conversations (store (connection_message E (Media sid (Some m)) s)) =
     conversations (store s) \<and>
   leads (store (connection_message E (Media sid (Some m)) s)) = leads (store s) \<and>
   journal (store (connection_message E (Media sid (Some m)) s)) =
     journal (store s) @ [ConversationAdd (customerNumber s) ''User audio received'' False]"
  by (simp add: on_media_fields called_def)

theorem media_records_no_entry_witness:
  "conversations (store (run_events demo_env
      [TwilioMessage demo_start, OpenAiOpen, TwilioMessage (demo_media 20)]
      (initial demo_store))) = [] \<and>
   journal (store (run_events demo_env
      [TwilioMessage demo_start, OpenAiOpen, TwilioMessage (demo_media 20)]
      (initial demo_store))) =
     [ConversationAdd (Some ''+12626912510'') ''User audio received'' False]"
  using media_records_no_entry [of demo_env "Some ''MZ1''"
      "\<lparr>media_timestamp = 20, media_payload = ''AAAA'', media_track = Some ''inbound'',
        media_chunk = Some ''end''\<rparr>"
      "run_events demo_env [TwilioMessage demo_start, OpenAiOpen] (initial demo_store)"]
  by code_simp

text \<open>
  Claim C8 as stated fails: the store holds the lead of the session's customer number,
  a \<open>media\<close> event is processed, and the conversation history of that lead is still
  empty.
\<close>

theorem media_records_no_entry_counterexample:
  "map_option lead_id (getLead (Some ''+12626912510'') demo_store) = Some 1 \<and>
   customerNumber (run_events demo_env [TwilioMessage demo_start, OpenAiOpen]
      (initial demo_store)) = Some ''+12626912510'' \<and>
   filter (\<lambda>c. conv_lead_id c = 1)
     (conversations (store (run_events demo_env
        [TwilioMessage demo_start, OpenAiOpen, TwilioMessage (demo_media 20)]
        (initial demo_store)))) = []"
  by code_simp

lemma on_stop_fields:
  "outgoingAudioBuffer (on_stop E sid s) = []"
  "incomingAudioBuffer (on_stop E sid s) = incomingAudioBuffer s"
  "timers (on_stop E sid s) = timers s"
  "silenceTimeout (on_stop E sid s) = silenceTimeout s"
  "clock (on_stop E sid s) = clock s"
  by (simp_all add: on_stop_def transcribeAndSaveRecording_def Let_def
      split: option.splits prod.splits)

lemma on_stop_indexeeee_fields:
  "incomingAudioBuffer (on_stop_indexeeee sid s) = []"
  "outgoingAudioBuffer (on_stop_indexeeee sid s) = []"
  by (auto simp: on_stop_indexeeee_def Let_def)

lemma audio_delta_outgoing:
  "outgoingAudioBuffer (audio_delta E d item s) = outgoingAudioBuffer s @ from_base64 E d"
  by (simp add: audio_delta_def sendMark_def Let_def)

text \<open>
  Claim C3, as the handlers have it.  After a \<open>stop\<close> event \<open>outgoingAudioBuffer\<close> is
  empty, so the audio of a later AI frame is appended to an empty buffer; in
  \<open>indexeeee.js\<close> both buffers are empty after \<open>stop\<close>, so a later \<open>media\<close> event
  appends to an empty buffer too.  The \<open>stop\<close> handler does not cancel the silence
  timer: the pending timers and \<open>silenceTimeout\<close> are what they were before it.
\<close>

theorem stop_clears_outgoing:
  "outgoingAudioBuffer (connection_message E (Stop sid) s) = [] \<and>
   outgoingAudioBuffer (audio_delta E d item (connection_message E (Stop sid) s)) =
     from_base64 E d \<and>
   timers (connection_message E (Stop sid) s) = timers s \<and>
   silenceTimeout (connection_message E (Stop sid) s) = silenceTimeout s \<and>
   incomingAudioBuffer (on_stop_indexeeee sid s) = [] \<and>
   outgoingAudioBuffer (on_stop_indexeeee sid s) = [] \<and>
   incomingAudioBuffer (on_media_indexeeee E sid' m (on_stop_indexeeee sid s)) =
     (if media_track m = Some ''inbound'' then from_base64 E (media_payload m) else [])"
  by (simp add: on_stop_fields audio_delta_outgoing on_media_indexeeee_fields
      on_stop_indexeeee_fields)

theorem stop_clears_outgoing_witness:
  "outgoingAudioBuffer (run_events demo_env
     [TwilioMessage demo_start, audio_frame ''AAAA''] (initial demo_store)) = [0, 0, 0] \<and>
   outgoingAudioBuffer (run_events demo_env
     [TwilioMessage demo_start, audio_frame ''AAAA'', TwilioMessage (Stop (Some ''MZ1''))]
     (initial demo_store)) = []"
  using stop_clears_outgoing [of demo_env "Some ''MZ1''"
      "run_events demo_env [TwilioMessage demo_start, audio_frame ''AAAA'']
         (initial demo_store)"]
  by code_simp

text \<open>
  Claim C3 as stated fails on \<open>admin.js\<close>: after a \<open>media\<close> event with the AI
  connection open and then \<open>stop\<close>, \<open>incomingAudioBuffer\<close> still holds the audio of
  the call, the silence timer armed by the \<open>media\<close> event is still pending, and a later
  \<open>media\<close> event appends to the buffer of before \<open>stop\<close>.
\<close>

theorem stop_clears_outgoing_counterexample:
  "incomingAudioBuffer (run_events demo_env
     [TwilioMessage demo_start, OpenAiOpen, TwilioMessage (demo_media 20),
      TwilioMessage (Stop (Some ''MZ1''))] (initial demo_store)) = [0, 0, 0] \<and>
   silence_timers (run_events demo_env
     [TwilioMessage demo_start, OpenAiOpen, TwilioMessage (demo_media 20),
      TwilioMessage (Stop (Some ''MZ1''))] (initial demo_store)) =
     [\<lparr>timer_id = 1, timer_due = 10000, timer_task = SilencePrompt\<rparr>] \<and>
   incomingAudioBuffer (run_events demo_env
     [TwilioMessage demo_start, OpenAiOpen, TwilioMessage (demo_media 20),
      TwilioMessage (Stop (Some ''MZ1'')), TwilioMessage (demo_media 40)]
     (initial demo_store)) = [0, 0, 0, 0, 0, 0]"
  by code_simp

section \<open>The turn-complete handler\<close>

lemma journal_called: "journal (called c d) = journal d @ [c]"
  by (simp add: called_def)

lemma updateLeadEmail_journal:
  "journal (fst (updateLeadEmail p e d)) = journal d @ [EmailUpdate p e]"
  by (simp add: updateLeadEmail_def Let_def called_def split: option.splits)

lemma addConversation_journal:
  "journal (addConversation p c ai d) = journal d @ [ConversationAdd p c ai] \<or>
   (\<exists>g. includes_sub c ''email:'' \<and> labelMatch c = Some g \<and>
      journal (addConversation p c ai d) =
        journal d @ [ConversationAdd p c ai, EmailUpdate (standardizePhoneNumber p) g])"
  by (auto simp: addConversation_def Let_def called_def updateLeadEmail_journal
      split: option.splits)

lemma addConversation_email_updates:
  "\<not> includes_sub c ''email:'' \<Longrightarrow>
     email_updates (addConversation p c ai d) = email_updates d"
  using addConversation_journal [of p c ai d] by (auto simp: email_updates_def)


lemma content_done_store:
  "store (content_done s) =
     (if truthy (customerNumber s)
      then
        (case emailMatch (accumulatedText s) of
           None \<Rightarrow> addConversation (customerNumber s) (accumulatedText s) True (store s)
         | Some e \<Rightarrow>
             fst (updateLeadEmail (customerNumber s) e
               (addConversation (customerNumber s) (accumulatedText s) True (store s))))
      else store s)"
  by (simp add: content_done_def Let_def setTimeout_def emit_def split: option.splits)





text \<open>
  Claim C4, as the handler has it.  When the accumulated text of a completed AI turn
  contains no email-shaped substring, the handler's own extraction makes no email update:
  the store after the turn is the one \<open>addConversation\<close> leaves (the store as it was,
  in a session without a customer number).  If moreover the text does not contain
  \<open>email:\<close>, the turn makes no email update at all.
\<close>

theorem turn_without_email:
  assumes "response_type r = ''response.content.done''"
    and "email_substrings (accumulatedText s) = []"
  shows "store (openAiWs_message E (Some r) s) =
      (if truthy (customerNumber s)
       then addConversation (customerNumber s) (accumulatedText s) True (store s)
       else store s) \<and>
    (\<not> includes_sub (accumulatedText s) ''email:'' \<longrightarrow>
       email_updates (store (openAiWs_message E (Some r) s)) = email_updates (store s))"
proof -
  from assms(2) have "emailMatch (accumulatedText s) = None"
    by (simp add: email_substrings_Nil)
  then have "store (content_done s) =
      (if truthy (customerNumber s)
       then addConversation (customerNumber s) (accumulatedText s) True (store s)
       else store s)"
    by (simp add: content_done_store)
  moreover have "store (openAiWs_message E (Some r) s) = store (content_done s)"
    using assms(1) by (simp add: openAiWs_message_def)
  ultimately show ?thesis
    by (simp add: addConversation_email_updates)
qed

theorem turn_without_email_witness:
  "response_type content_done_frame = ''response.content.done'' \<and>
   email_substrings (accumulatedText (run_events demo_env
      [TwilioMessage demo_start, text_delta ''hello there''] (initial demo_store))) = [] \<and>
   journal (store (openAiWs_message demo_env (Some content_done_frame)
      (run_events demo_env
         [TwilioMessage demo_start, text_delta ''hello there''] (initial demo_store)))) =
     [ConversationAdd (Some ''+12626912510'') ''hello there'' True]"
proof -
  let ?s = "run_events demo_env
    [TwilioMessage demo_start, text_delta ''hello there''] (initial demo_store)"
  have h1: "response_type content_done_frame = ''response.content.done''"
    by code_simp
  have h2: "email_substrings (accumulatedText ?s) = []"
    by code_simp
  show ?thesis
    using turn_without_email [OF h1 h2, where E = demo_env]
    by code_simp
qed

text \<open>
  Claim C4 as stated fails: the turn text \<open>email: a@b\<close> contains no email-shaped
  substring, and the turn makes an email update, from \<open>addConversation\<close>.
\<close>

theorem turn_without_email_counterexample:
  "email_substrings ''email: a@b'' = [] \<and>
   email_updates (store (run_events demo_env
      [TwilioMessage demo_start, text_delta ''email: a@b'',
       OpenAiMessage (Some content_done_frame)] (initial demo_store))) =
     [EmailUpdate (Some ''+12626912510'') ''a@b'']"
  by code_simp

section \<open>The silence timer\<close>



























lemma customerNumber_simps [simp]:
  "customerNumber (handleEndOfSpeech s) = customerNumber s"
  "customerNumber (promptAIIfSilent ms s) = customerNumber s"
  "customerNumbers (handleEndOfSpeech s) = customerNumbers s"
  "customerNumbers (promptAIIfSilent ms s) = customerNumbers s"
  "streamSid (handleEndOfSpeech s) = streamSid s"
  "streamSid (promptAIIfSilent ms s) = streamSid s"
  by (simp_all add: handleEndOfSpeech_def promptAIIfSilent_def setTimeout_def clearTimeout_def
      Let_def split: option.splits)
















end
